theory Spec2Isabelle
  imports Complex_Main "HOL-Library.AList"
begin

section \<open>Voice Cloning Engine: voice registry and chunked generation pipeline\<close>

text \<open>
  A shallow embedding of \<^verbatim>\<open>core/voice_manager.py\<close> and
  \<^verbatim>\<open>core/speech_generator.py\<close>.

  Modelling conventions.
  \<^item> Strings are byte strings; only ASCII white space is known to \<open>strip\<close>.
  \<^item> The samples directory \<^verbatim>\<open>SAMPLES_DIR\<close> is an association list from file name to
    file content, listed by \<^verbatim>\<open>os.listdir\<close> in list order. A path
    \<^verbatim>\<open>SAMPLES_DIR / f\<close> is represented by the file name \<open>f\<close>; operations on files of
    this directory do not fail except by the file being absent or of the wrong kind.
  \<^item> The registry \<^verbatim>\<open>self.voices["samples"]\<close> is a Python dict, so an association list
    in insertion order: assignment overwrites in place or appends, \<^verbatim>\<open>del\<close> removes.
  \<^item> Python floats (time stamps, the speed factor, audio samples) are real numbers.
  \<^item> The external collaborators (the TTS model, the text chunker, the clock,
    \<^verbatim>\<open>soundfile.write\<close>, the files outside the samples directory) are the fields
    of an environment record; each call that can raise returns a sum, \<open>Inl\<close> the exception.
\<close>

subsection \<open>Strings\<close>

type_synonym exn = string  \<comment> \<open>a Python exception, by its message \<^verbatim>\<open>str(e)\<close>\<close>

definition isspace :: "char \<Rightarrow> bool" where
  "isspace c = ((of_char c :: nat) \<in> {9, 10, 11, 12, 13, 28, 29, 30, 31, 32})"

definition strip :: "string \<Rightarrow> string" where
  "strip s = rev (dropWhile isspace (rev (dropWhile isspace s)))"

text \<open>\<^verbatim>\<open>not s or not s.strip()\<close> for a string \<open>s\<close>.\<close>

definition blank :: "string \<Rightarrow> bool" where
  "blank s = (s = [] \<or> strip s = [])"

definition endswith :: "string \<Rightarrow> string \<Rightarrow> bool" where
  "endswith s suf = (length suf \<le> length s \<and> drop (length s - length suf) s = suf)"

definition rfind :: "char \<Rightarrow> string \<Rightarrow> nat option" where
  "rfind c s =
     (if c \<in> set s then Some (length s - 1 - length (takeWhile (\<lambda>x. x \<noteq> c) (rev s)))
      else None)"

text \<open>
  \<^verbatim>\<open>os.path.splitext(name)[0]\<close> for a file name without directory separator: the name
  is cut at its last dot, unless only dots precede that dot.
\<close>

definition splitext_root :: "string \<Rightarrow> string" where
  "splitext_root p =
     (case rfind (CHR ''.'') p of
        None \<Rightarrow> p
      | Some d \<Rightarrow> if list_ex (\<lambda>c. c \<noteq> CHR ''.'') (take d p) then take d p else p)"

subsection \<open>The samples directory and the registry\<close>

type_synonym codes = "nat list"  \<comment> \<open>the opaque reference encoding\<close>
type_synonym audio = "real list"  \<comment> \<open>a one-dimensional numpy array of samples\<close>

datatype content = Transcript string | RawAudio string | Encoding codes

type_synonym directory = "(string \<times> content) list"
type_synonym registry = "(string \<times> (string \<times> string)) list"

definition listdir :: "directory \<Rightarrow> string list" where
  "listdir d = map fst d"

definition path_exists :: "directory \<Rightarrow> string \<Rightarrow> bool" where
  "path_exists d f = (map_of d f \<noteq> None)"

definition write_file :: "string \<Rightarrow> content \<Rightarrow> directory \<Rightarrow> directory" where
  "write_file f c d = AList.update f c d"

definition unlink :: "string \<Rightarrow> directory \<Rightarrow> directory" where
  "unlink f d = AList.delete f d"

definition txt_path :: "string \<Rightarrow> string" where
  "txt_path base = base @ ''.txt''"

definition wav_path :: "string \<Rightarrow> string" where
  "wav_path base = base @ ''.wav''"

definition pt_path :: "string \<Rightarrow> string" where
  "pt_path base = base @ ''.pt''"

record world =
  samples :: directory  \<comment> \<open>the files of \<^verbatim>\<open>SAMPLES_DIR\<close>\<close>
  voices :: registry  \<comment> \<open>\<^verbatim>\<open>self.voices["samples"]\<close>\<close>
  infer_calls :: nat  \<comment> \<open>how many times \<^verbatim>\<open>tts_model.infer\<close> has been called\<close>
  clock_reads :: nat  \<comment> \<open>how many times \<^verbatim>\<open>time.time()\<close> has been called\<close>
  temp_output :: "audio option"  \<comment> \<open>the file at \<^verbatim>\<open>TEMP_OUTPUT_PATH\<close>\<close>

record env =
  split_text_into_chunks :: "string \<Rightarrow> string list"
  infer :: "nat \<Rightarrow> string \<Rightarrow> codes \<Rightarrow> string \<Rightarrow> exn + audio"
    \<comment> \<open>the outcome of the \<open>k\<close>-th call of \<^verbatim>\<open>tts_model.infer\<close> on these arguments\<close>
  encode_reference :: "string \<Rightarrow> exn + codes"
    \<comment> \<open>\<^verbatim>\<open>tts_model.encode_reference\<close> on the bytes of an audio file\<close>
  time_time :: "nat \<Rightarrow> real"  \<comment> \<open>the \<open>k\<close>-th reading of \<^verbatim>\<open>time.time()\<close>\<close>
  sf_write :: "audio \<Rightarrow> exn option"  \<comment> \<open>\<^verbatim>\<open>sf.write\<close>: \<open>None\<close> when the file was written\<close>
  uploads :: "string \<Rightarrow> string option"
    \<comment> \<open>the readable audio files outside the samples directory, by path\<close>

subsection \<open>\<^verbatim>\<open>VoiceManager\<close>\<close>

definition scan_entry :: "directory \<Rightarrow> registry \<Rightarrow> string \<Rightarrow> registry" where
  "scan_entry d reg name =
     (if endswith name ''.txt'' then
        let base = splitext_root name in
        if path_exists d (txt_path base)
           \<and> (path_exists d (wav_path base) \<or> path_exists d (pt_path base))
        then
          let audio_or_pt = (if path_exists d (wav_path base) then wav_path base
                             else pt_path base)
          in AList.update base (txt_path base, audio_or_pt) reg
        else reg
      else reg)"

definition load_voices :: "world \<Rightarrow> world" where
  "load_voices w = w\<lparr>voices := foldl (scan_entry (samples w)) [] (listdir (samples w))\<rparr>"

definition get_voice_list :: "world \<Rightarrow> string list" where
  "get_voice_list w = map fst (voices w)"

definition voice_exists :: "world \<Rightarrow> string \<Rightarrow> bool" where
  "voice_exists w voice_name = (voice_name \<in> fst ` set (voices w))"

text \<open>
  The status message of an event, by the format string that makes it, with the values
  that the string is filled with: \<open>EmptyTextError\<close> is
  \<^verbatim>\<open>Error: Input text cannot be empty.\<close>, \<open>NoVoiceError\<close> is
  \<^verbatim>\<open>Error: No voice selected. Please select a voice.\<close>, \<open>VoiceNotFoundError v\<close> is
  \<^verbatim>\<open>Error: Voice 'v' not found.\<close>, \<open>LoadingReference\<close> is
  \<^verbatim>\<open>Loading voice reference...\<close>, \<open>EstimatedTime t n\<close> is the estimate of \<open>t\<close>
  seconds for \<open>n\<close> chunks, \<open>ProcessingChunk i n p r\<close> is
  \<^verbatim>\<open>Processing chunk i/n\<close> with \<^verbatim>\<open>Progress: p% complete\<close> and, when \<open>r\<close> is
  given, \<^verbatim>\<open>Est. remaining:\<close> \<open>r\<close> seconds, \<open>Finalizing\<close> is
  \<^verbatim>\<open>Finalizing audio...\<close>, \<open>GenerationComplete t\<close> is
  \<^verbatim>\<open>Generation complete!\<close> with the total time \<open>t\<close>, and \<open>GenerationError x\<close> is
  \<^verbatim>\<open>Error generating speech:\<close> followed by the message \<open>x\<close> of the exception.
  An event is the tuple that \<^verbatim>\<open>generate_speech\<close> yields; an action is an event or a
  call of a collaborator, and a trace lists the actions in the order in which they happen.
\<close>

datatype status =
    EmptyTextError
  | NoVoiceError
  | VoiceNotFoundError string
  | LoadingReference
  | EstimatedTime real nat
  | ProcessingChunk nat nat int "real option"
  | Finalizing
  | GenerationComplete real
  | GenerationError exn

record event =
  progress :: int
  audio_path :: "string option"
  status_message :: status
  delete_status :: "string option"

datatype action =
    Yield event
  | CallInfer string codes string
  | CallEncodeReference string
  | CallTorchLoad string
  | CallSfWrite audio

text \<open>
  \<^verbatim>\<open>load_reference\<close>: the transcript is read and stripped; the second path decides by
  its extension between \<^verbatim>\<open>torch.load\<close> and \<^verbatim>\<open>encode_reference\<close>.
\<close>

definition read_text :: "directory \<Rightarrow> string \<Rightarrow> exn + string" where
  "read_text d f =
     (case map_of d f of
        Some (Transcript t) \<Rightarrow> Inr t
      | Some _ \<Rightarrow> Inl ''UnicodeDecodeError''
      | None \<Rightarrow> Inl ''FileNotFoundError'')"

definition torch_load :: "directory \<Rightarrow> string \<Rightarrow> exn + codes" where
  "torch_load d f =
     (case map_of d f of
        Some (Encoding c) \<Rightarrow> Inr c
      | Some _ \<Rightarrow> Inl ''UnpicklingError''
      | None \<Rightarrow> Inl ''FileNotFoundError'')"

definition encode_file :: "env \<Rightarrow> directory \<Rightarrow> string \<Rightarrow> exn + codes" where
  "encode_file e d f =
     (case map_of d f of
        Some (RawAudio b) \<Rightarrow> encode_reference e b
      | Some _ \<Rightarrow> Inl ''LibsndfileError''
      | None \<Rightarrow> Inl ''FileNotFoundError'')"

definition load_reference ::
  "env \<Rightarrow> world \<Rightarrow> string \<Rightarrow> action list \<times> (exn + string \<times> codes)" where
  "load_reference e w voice_name =
     (if \<not> voice_exists w voice_name then ([], Inl ''Voice not found'')
      else case map_of (voices w) voice_name of
        None \<Rightarrow> ([], Inl ''KeyError'')
      | Some (txt, audio_or_pt) \<Rightarrow>
          (case read_text (samples w) txt of
             Inl x \<Rightarrow> ([], Inl x)
           | Inr t \<Rightarrow>
               let ref_text = strip t in
               if endswith audio_or_pt ''.pt'' then
                 (case torch_load (samples w) audio_or_pt of
                    Inl x \<Rightarrow> ([CallTorchLoad audio_or_pt], Inl x)
                  | Inr c \<Rightarrow> ([CallTorchLoad audio_or_pt], Inr (ref_text, c)))
               else
                 (case encode_file e (samples w) audio_or_pt of
                    Inl x \<Rightarrow> ([CallEncodeReference audio_or_pt], Inl x)
                  | Inr c \<Rightarrow> ([CallEncodeReference audio_or_pt], Inr (ref_text, c)))))"

datatype clone_status =
    NameEmpty
  | RefTextEmpty
  | NoAudioFile
  | AlreadyExists string
  | Cloned string
  | CloneError exn

text \<open>
  \<^verbatim>\<open>gr.update()\<close> is \<open>None\<close>;
  \<^verbatim>\<open>gr.update(choices=..., value=...)\<close> is \<open>Some (choices, value)\<close>.
\<close>

type_synonym gr_update = "(string list \<times> string option) option"

definition clone_voice ::
  "env \<Rightarrow> string \<Rightarrow> string \<Rightarrow> string option \<Rightarrow> world \<Rightarrow> (clone_status \<times> gr_update) \<times> world"
  where
  "clone_voice e new_name ref_text audio_file w =
     (if blank new_name then ((NameEmpty, None), w)
      else if blank ref_text then ((RefTextEmpty, None), w)
      else if audio_file = None \<or> audio_file = Some [] then ((NoAudioFile, None), w)
      else if voice_exists w new_name then ((AlreadyExists new_name, None), w)
      else
        let w1 = w\<lparr>samples := write_file (txt_path new_name) (Transcript (strip ref_text))
                                (samples w)\<rparr>
        in case uploads e (the audio_file) of
             None \<Rightarrow> ((CloneError ''FileNotFoundError'', None), w1)
           | Some bytes \<Rightarrow>
               let w2 = w1\<lparr>samples := write_file (wav_path new_name) (RawAudio bytes)
                                         (samples w1)\<rparr>
               in case encode_file e (samples w2) (wav_path new_name) of
                    Inl x \<Rightarrow> ((CloneError x, None), w2)
                  | Inr ref_codes \<Rightarrow>
                      let w3 = w2\<lparr>samples := write_file (pt_path new_name)
                                                  (Encoding ref_codes) (samples w2)\<rparr>;
                          w4 = w3\<lparr>voices := AList.update new_name
                                                 (txt_path new_name, pt_path new_name)
                                                 (voices w3)\<rparr>
                      in ((Cloned new_name, Some (get_voice_list w4, Some new_name)), w4))"

datatype delete_result =
    NotFound string
  | Deleted string
  | DeleteError exn

definition unlink_if_exists :: "string \<Rightarrow> directory \<Rightarrow> directory" where
  "unlink_if_exists f d = (if path_exists d f then unlink f d else d)"

definition delete_voice :: "string \<Rightarrow> world \<Rightarrow> (delete_result \<times> gr_update) \<times> world" where
  "delete_voice voice_name w =
     (if \<not> voice_exists w voice_name then ((NotFound voice_name, None), w)
      else
        let d = foldl (\<lambda>d path. unlink_if_exists path d) (samples w)
                  [txt_path voice_name, wav_path voice_name, pt_path voice_name];
            w1 = w\<lparr>samples := d\<rparr>;
            w2 = w1\<lparr>voices := AList.delete voice_name (voices w1)\<rparr>;
            remaining_voices = get_voice_list w2;
            new_selected = (case remaining_voices of [] \<Rightarrow> None | v # _ \<Rightarrow> Some v)
        in ((Deleted voice_name, Some (remaining_voices, new_selected)), w2))"

subsection \<open>Configuration\<close>

definition SAMPLE_RATE :: nat where
  "SAMPLE_RATE = 24000"

definition SILENCE_DURATION :: real where
  "SILENCE_DURATION = 1 / 4"

definition TEMP_OUTPUT_PATH :: string where
  "TEMP_OUTPUT_PATH = ''temp_output.wav''"

subsection \<open>\<^verbatim>\<open>SpeechGenerator\<close>\<close>

text \<open>
  \<^verbatim>\<open>process_chunk\<close>: one call of \<^verbatim>\<open>tts_model.infer\<close>; an exception becomes
  \<open>None\<close>.
\<close>

definition process_chunk ::
  "env \<Rightarrow> string \<Rightarrow> codes \<Rightarrow> string \<Rightarrow> world \<Rightarrow> action list \<times> audio option \<times> world" where
  "process_chunk e chunk ref_codes ref_text w =
     ([CallInfer chunk ref_codes ref_text],
      (case infer e (infer_calls w) chunk ref_codes ref_text of
         Inl x \<Rightarrow> None
       | Inr a \<Rightarrow> Some a),
      w\<lparr>infer_calls := Suc (infer_calls w)\<rparr>)"

definition estimate_generation_time :: "nat \<Rightarrow> nat" where
  "estimate_generation_time num_chunks = num_chunks * 3 + 2"

text \<open>Python's \<^verbatim>\<open>int(x)\<close> on a float truncates towards zero.\<close>

definition py_int :: "real \<Rightarrow> int" where
  "py_int x = (if 0 \<le> x then \<lfloor>x\<rfloor> else \<lceil>x\<rceil>)"

text \<open>\<^verbatim>\<open>np.round\<close> rounds a half to the even neighbour.\<close>

definition np_round :: "real \<Rightarrow> int" where
  "np_round x =
     (let f = \<lfloor>x\<rfloor>; d = x - of_int f
      in if d < 1 / 2 then f else if 1 / 2 < d then f + 1 else if even f then f else f + 1)"

definition linspace :: "real \<Rightarrow> real \<Rightarrow> nat \<Rightarrow> real list" where
  "linspace start stop num =
     (if num = 1 then [start]
      else map (\<lambda>k. start + real k * ((stop - start) / real (num - 1))) [0..<num])"

text \<open>
  \<^verbatim>\<open>audio[indices]\<close> with an integer index array: a negative index counts from the
  end, an index out of range raises.
\<close>

definition fancy_index :: "audio \<Rightarrow> int list \<Rightarrow> exn + audio" where
  "fancy_index a indices =
     (let n = int (length a)
      in if list_all (\<lambda>i. - n \<le> i \<and> i < n) indices
         then Inr (map (\<lambda>i. a ! nat (if i < 0 then i + n else i)) indices)
         else Inl ''IndexError'')"

definition apply_speed_adjustment :: "audio \<Rightarrow> real \<Rightarrow> exn + audio" where
  "apply_speed_adjustment a speed =
     (if speed = 1 then Inr a
      else if speed = 0 then Inl ''ZeroDivisionError''
      else
        let target_length = py_int (real (length a) / speed)
        in if target_length < 0 then Inl ''ValueError''
           else
             let indices = map np_round
                   (linspace 0 (of_int (int (length a) - 1)) (nat target_length))
             in fancy_index a indices)"

definition error_event :: "status \<Rightarrow> event" where
  "error_event st =
     \<lparr>progress = 0, audio_path = None, status_message = st, delete_status = None\<rparr>"

definition progress_event :: "int \<Rightarrow> status \<Rightarrow> event" where
  "progress_event p st =
     \<lparr>progress = p, audio_path = None, status_message = st, delete_status = None\<rparr>"

text \<open>
  The loop over \<^verbatim>\<open>enumerate(chunks, 1)\<close>: \<open>i\<close> is the one-based index of the first
  remaining chunk, \<open>chunk_results\<close> the pairs collected so far.
\<close>

fun chunk_loop ::
  "env \<Rightarrow> real \<Rightarrow> nat \<Rightarrow> codes \<Rightarrow> string \<Rightarrow> nat \<Rightarrow> string list \<Rightarrow> (nat \<times> audio) list \<Rightarrow> world
   \<Rightarrow> action list \<times> (nat \<times> audio) list \<times> world" where
  "chunk_loop e start_time total_chunks ref_codes ref_text i [] chunk_results w =
     ([], chunk_results, w)"
| "chunk_loop e start_time total_chunks ref_codes ref_text i (chunk # rest) chunk_results w =
     (let progress = py_int (15 + (75 * real i / real total_chunks));
          elapsed_time = time_time e (clock_reads w) - start_time;
          w1 = w\<lparr>clock_reads := Suc (clock_reads w)\<rparr>;
          status =
            (if i > 1 then
               let avg_time_per_chunk = elapsed_time / of_int (int i - 1);
                   remaining_chunks = int total_chunks - (int i - 1);
                   estimated_remaining = avg_time_per_chunk * of_int remaining_chunks
               in ProcessingChunk i total_chunks progress (Some estimated_remaining)
             else ProcessingChunk i total_chunks progress None);
          (tr, chunk_wav, w2) = process_chunk e chunk ref_codes ref_text w1;
          chunk_results' =
            (case chunk_wav of
               None \<Rightarrow> chunk_results
             | Some wav \<Rightarrow> chunk_results @ [(i - 1, wav)]);
          (tr', res, w3) =
            chunk_loop e start_time total_chunks ref_codes ref_text (Suc i) rest
              chunk_results' w2
      in (Yield (progress_event progress status) # tr @ tr', res, w3))"

definition silence :: audio where
  "silence = replicate (nat (py_int (real SAMPLE_RATE * SILENCE_DURATION))) 0"

definition concatenate_chunks :: "audio list \<Rightarrow> exn + audio" where
  "concatenate_chunks processed_chunks =
     (case processed_chunks of
        [] \<Rightarrow> Inl ''IndexError''
      | first # others \<Rightarrow>
          Inr (foldl (\<lambda>all_wav chunk_wav. all_wav @ silence @ chunk_wav) first others))"

text \<open>
  The part of \<^verbatim>\<open>generate_speech\<close> after the three input validations. \<open>Inl\<close> is an
  exception that reaches the \<^verbatim>\<open>except Exception\<close> handler.
\<close>

definition generate_body ::
  "env \<Rightarrow> string \<Rightarrow> string \<Rightarrow> real \<Rightarrow> world \<Rightarrow> action list \<times> (exn + unit) \<times> world" where
  "generate_body e text voice_name speed w =
     (let start_time = time_time e (clock_reads w);
          w0 = w\<lparr>clock_reads := Suc (clock_reads w)\<rparr>;
          ev10 = Yield (progress_event 10 LoadingReference);
          (tr_ref, loaded) = load_reference e w0 voice_name
      in case loaded of
           Inl x \<Rightarrow> (ev10 # tr_ref, Inl x, w0)
         | Inr (ref_text, ref_codes) \<Rightarrow>
             let chunks = split_text_into_chunks e text;
                 total_chunks = length chunks
             in if total_chunks = 0 then (ev10 # tr_ref, Inl ''No text to process'', w0)
                else
                  let estimated_time = estimate_generation_time total_chunks;
                      ev15 = Yield (progress_event 15
                               (EstimatedTime (real estimated_time) total_chunks));
                      (tr_loop, chunk_results, w1) =
                        chunk_loop e start_time total_chunks ref_codes ref_text 1 chunks [] w0;
                      tr1 = ev10 # tr_ref @ ev15 # tr_loop
                  in if chunk_results = [] then (tr1, Inl ''Failed to generate any audio'', w1)
                     else
                       let tr2 = tr1 @ [Yield (progress_event 90 Finalizing)];
                           processed_chunks = map snd (sort_key fst chunk_results)
                       in case concatenate_chunks processed_chunks of
                            Inl x \<Rightarrow> (tr2, Inl x, w1)
                          | Inr all_wav \<Rightarrow>
                              (case (if speed \<noteq> 1 then apply_speed_adjustment all_wav speed
                                     else Inr all_wav) of
                                 Inl x \<Rightarrow> (tr2, Inl x, w1)
                               | Inr final_wav \<Rightarrow>
                                   (case sf_write e final_wav of
                                      Some x \<Rightarrow> (tr2 @ [CallSfWrite final_wav], Inl x, w1)
                                    | None \<Rightarrow>
                                        let total_time = time_time e (clock_reads w1) - start_time;
                                            w2 = w1\<lparr>clock_reads := Suc (clock_reads w1),
                                                    temp_output := Some final_wav\<rparr>
                                        in (tr2 @ [CallSfWrite final_wav,
                                                   Yield \<lparr>progress = 100,
                                                          audio_path = Some TEMP_OUTPUT_PATH,
                                                          status_message = GenerationComplete total_time,
                                                          delete_status = None\<rparr>],
                                            Inr (), w2))))"

definition generate_speech ::
  "env \<Rightarrow> string \<Rightarrow> string option \<Rightarrow> real \<Rightarrow> world \<Rightarrow> action list \<times> world" where
  "generate_speech e text voice_name speed w =
     (if blank text then ([Yield (error_event EmptyTextError)], w)
      else if voice_name = None \<or> voice_name = Some [] then
        ([Yield (error_event NoVoiceError)], w)
      else if \<not> voice_exists w (the voice_name) then
        ([Yield (error_event (VoiceNotFoundError (the voice_name)))], w)
      else
        (case generate_body e text (the voice_name) speed w of
           (tr, Inl x, w') \<Rightarrow> (tr @ [Yield (error_event (GenerationError x))], w')
         | (tr, Inr u, w') \<Rightarrow> (tr, w')))"

text \<open>The events of a trace, in order.\<close>

fun yields :: "action list \<Rightarrow> event list" where
  "yields [] = []"
| "yields (Yield ev # tr) = ev # yields tr"
| "yields (a # tr) = yields tr"

fun is_call_infer :: "action \<Rightarrow> bool" where
  "is_call_infer (CallInfer c rc rt) = True"
| "is_call_infer a = False"

subsection \<open>A concrete environment\<close>

text \<open>
  A chunker that cuts at every \<open>|\<close>, a model that fails on the chunk \<open>bad\<close> and otherwise
  returns one sample, the number of characters of the chunk, and a clock that advances by
  two seconds at every reading.
\<close>

fun cut_at_bars :: "string \<Rightarrow> string \<Rightarrow> string list" where
  "cut_at_bars acc [] = (if acc = [] then [] else [acc])"
| "cut_at_bars acc (c # cs) =
     (if c = CHR ''|'' then (if acc = [] then [] else [acc]) @ cut_at_bars [] cs
      else cut_at_bars (acc @ [c]) cs)"

definition demo_env :: env where
  "demo_env =
     \<lparr>split_text_into_chunks = cut_at_bars [],
      infer = (\<lambda>k chunk ref_codes ref_text.
                 if chunk = ''bad'' then Inl ''inference failed''
                 else Inr [real (length chunk)]),
      encode_reference = (\<lambda>bytes. if bytes = [] then Inl ''empty audio'' else Inr [length bytes]),
      time_time = (\<lambda>k. 2 * real k),
      sf_write = (\<lambda>a. None),
      uploads = (\<lambda>p. if p = ''/tmp/ref.wav'' then Some ''RIFF'' else None)\<rparr>"

definition demo_world :: world where
  "demo_world =
     \<lparr>samples = [(''amy.txt'', Transcript ''hello there ''), (''amy.wav'', RawAudio ''RIFF''),
                 (''amy.pt'', Encoding [4])],
      voices = [(''amy'', (''amy.txt'', ''amy.pt''))],
      infer_calls = 0,
      clock_reads = 0,
      temp_output = None\<rparr>"

subsection \<open>Auxiliary notions\<close>

text \<open>The voice names that a scan derives from the transcript files of the directory.\<close>

definition candidates :: "directory \<Rightarrow> string list" where
  "candidates d = map splitext_root (filter (\<lambda>name. endswith name ''.txt'') (listdir d))"

text \<open>What holds of every entry that a scan of directory \<open>d\<close> has put into the registry.\<close>

definition scan_invariant :: "directory \<Rightarrow> registry \<Rightarrow> bool" where
  "scan_invariant d reg \<longleftrightarrow>
     (\<forall>b v. map_of reg b = Some v \<longrightarrow>
        path_exists d (txt_path b) \<and> (path_exists d (wav_path b) \<or> path_exists d (pt_path b))
        \<and> v = (txt_path b, if path_exists d (wav_path b) then wav_path b else pt_path b))"

text \<open>
  The progress event of the loop for the chunk with one-based index \<open>i\<close>, when the clock
  is read for the \<open>reads\<close>-th time; the waveforms joined with a silence between
  neighbours; and the kinds of events: the terminal events of a job, and lists of events
  of a job that is under way.
\<close>

definition chunk_progress_event :: "env \<Rightarrow> real \<Rightarrow> nat \<Rightarrow> nat \<Rightarrow> nat \<Rightarrow> event" where
  "chunk_progress_event e start_time N i reads =
     progress_event (py_int (15 + (75 * real i / real N)))
       (if i > 1 then
          ProcessingChunk i N (py_int (15 + (75 * real i / real N)))
            (Some ((time_time e reads - start_time) / of_int (int i - 1)
                   * of_int (int N - (int i - 1))))
        else ProcessingChunk i N (py_int (15 + (75 * real i / real N))) None)"



definition is_success :: "event \<Rightarrow> bool" where
  "is_success ev \<longleftrightarrow>
     progress ev = 100 \<and> audio_path ev = Some TEMP_OUTPUT_PATH
     \<and> (case status_message ev of GenerationComplete t \<Rightarrow> True | _ \<Rightarrow> False)"

definition is_error :: "event \<Rightarrow> bool" where
  "is_error ev \<longleftrightarrow>
     progress ev = 0 \<and> audio_path ev = None
     \<and> (case status_message ev of
           EmptyTextError \<Rightarrow> True
         | NoVoiceError \<Rightarrow> True
         | VoiceNotFoundError v \<Rightarrow> True
         | GenerationError x \<Rightarrow> True
         | _ \<Rightarrow> False)"

definition in_flight :: "event list \<Rightarrow> bool" where
  "in_flight evs \<longleftrightarrow>
     sorted (map progress evs)
     \<and> (\<forall>ev \<in> set evs. 10 \<le> progress ev \<and> progress ev \<le> 90 \<and> audio_path ev = None)"

text \<open>The position of the first occurrence of an action in a trace.\<close>

definition index_of :: "'a \<Rightarrow> 'a list \<Rightarrow> nat" where
  "index_of a xs = length (takeWhile (\<lambda>x. x \<noteq> a) xs)"

section \<open>Properties\<close>

subsection \<open>The chunk loop\<close>

lemma progress_floor:
  "py_int (15 + (75 * real i / real N)) = 15 + int ((75 * i) div N)"
proof -
  have "75 * real i / real N = real (75 * i) / real N" by simp
  then have f: "\<lfloor>75 * real i / real N\<rfloor> = int ((75 * i) div N)"
    by (simp only: floor_divide_of_nat_eq)
  have nn: "0 \<le> 15 + (75 * real i / real N)" by simp
  have "\<lfloor>15 + (75 * real i / real N)\<rfloor> = 15 + \<lfloor>75 * real i / real N\<rfloor>"
    by linarith
  with f nn show ?thesis by (simp add: py_int_def)
qed

lemma chunk_loop_world:
  "snd (snd (chunk_loop e st N rc rt i chunks res w)) =
     w\<lparr>infer_calls := infer_calls w + length chunks,
       clock_reads := clock_reads w + length chunks\<rparr>"
proof (induction chunks arbitrary: i res w)
  case Nil
  then show ?case by simp
next
  case (Cons c cs)
  then show ?case
    by (simp add: process_chunk_def Let_def case_prod_beta)
qed

lemma chunk_loop_calls:
  "filter is_call_infer (fst (chunk_loop e st N rc rt i chunks res w)) =
     map (\<lambda>c. CallInfer c rc rt) chunks"
proof (induction chunks arbitrary: i res w)
  case Nil
  then show ?case by simp
next
  case (Cons c cs)
  then show ?case
    by (simp add: process_chunk_def Let_def case_prod_beta)
qed

subsection \<open>Failure isolation of one chunk\<close>

text \<open>
  Claim C4. When the call of \<^verbatim>\<open>tts_model.infer\<close> for a chunk raises,
  \<^verbatim>\<open>process_chunk\<close> returns \<open>None\<close> and has called the collaborator exactly once: its
  trace is the single call and the call counter has advanced by one. It has no exceptional
  result, and the loop goes on: the calls of a loop that starts with this chunk are one call
  for each chunk, in order.
\<close>

theorem process_chunk_swallows_exception:
  assumes "infer e (infer_calls w) chunk ref_codes ref_text = Inl x"
  shows "process_chunk e chunk ref_codes ref_text w =
           ([CallInfer chunk ref_codes ref_text], None, w\<lparr>infer_calls := Suc (infer_calls w)\<rparr>)
         \<and> filter is_call_infer
             (fst (chunk_loop e st N ref_codes ref_text i (chunk # rest) res w)) =
           map (\<lambda>c. CallInfer c ref_codes ref_text) (chunk # rest)"
  using assms by (simp only: chunk_loop_calls) (simp add: process_chunk_def)

theorem process_chunk_swallows_exception_witness:
  "infer demo_env (infer_calls demo_world) ''bad'' [4, 2] ''hello there'' = Inl ''inference failed''
   \<and> process_chunk demo_env ''bad'' [4, 2] ''hello there'' demo_world =
       ([CallInfer ''bad'' [4, 2] ''hello there''], None,
        demo_world\<lparr>infer_calls := Suc (infer_calls demo_world)\<rparr>)
   \<and> filter is_call_infer
       (fst (chunk_loop demo_env 0 2 [4, 2] ''hello there'' 1 [''bad'', ''ok''] [] demo_world)) =
     [CallInfer ''bad'' [4, 2] ''hello there'', CallInfer ''ok'' [4, 2] ''hello there'']"
proof -
  have h: "infer demo_env (infer_calls demo_world) ''bad'' [4, 2] ''hello there''
           = Inl ''inference failed''"
    by (simp add: demo_env_def)
  show ?thesis
    using h process_chunk_swallows_exception [OF h, of 0 2 1 "[''ok'']" "[]"] by simp
qed

subsection \<open>Files and paths\<close>

lemma endswith_wav_pt: "\<not> endswith (wav_path b) ''.pt''"
  by (simp add: endswith_def wav_path_def)

lemma endswith_pt_pt: "endswith (pt_path b) ''.pt''"
  by (simp add: endswith_def pt_path_def)

lemma path_neq: "txt_path b \<noteq> wav_path b" "txt_path b \<noteq> pt_path b" "wav_path b \<noteq> pt_path b"
  by (simp_all add: txt_path_def wav_path_def pt_path_def)

lemma map_of_unlink_if_exists: "map_of (unlink_if_exists f d) = (map_of d)(f := None)"
  by (auto simp: unlink_if_exists_def unlink_def path_exists_def AList.delete_conv')

lemma map_of_write_file: "map_of (write_file f c d) = (map_of d)(f \<mapsto> c)"
  by (simp add: write_file_def AList.update_conv')

lemma scan_invariant_scan_entry: "scan_invariant d reg \<Longrightarrow> scan_invariant d (scan_entry d reg name)"
  by (auto simp: scan_invariant_def scan_entry_def Let_def AList.update_conv' split: if_splits)

lemma scan_invariant_foldl: "scan_invariant d reg \<Longrightarrow> scan_invariant d (foldl (scan_entry d) reg names)"
  by (induction names arbitrary: reg) (simp_all add: scan_invariant_scan_entry)

lemma dom_scan_entry:
  "fst ` set (scan_entry d reg name) =
     fst ` set reg \<union>
     (if endswith name ''.txt'' \<and> path_exists d (txt_path (splitext_root name))
         \<and> (path_exists d (wav_path (splitext_root name))
              \<or> path_exists d (pt_path (splitext_root name)))
      then {splitext_root name} else {})"
  by (auto simp: scan_entry_def Let_def AList.dom_update)

lemma dom_foldl_scan:
  "b \<in> fst ` set (foldl (scan_entry d) reg names) \<longleftrightarrow>
     b \<in> fst ` set reg \<or>
     (\<exists>name \<in> set names. endswith name ''.txt'' \<and> splitext_root name = b)
       \<and> path_exists d (txt_path b)
       \<and> (path_exists d (wav_path b) \<or> path_exists d (pt_path b))"
proof (induction names arbitrary: reg)
  case Nil
  then show ?case by simp
next
  case (Cons name names)
  show ?case
    unfolding foldl_Cons Cons.IH dom_scan_entry by auto
qed

lemma scan_invariant_load: "scan_invariant (samples w) (voices (load_voices w))"
proof -
  have "scan_invariant (samples w) []" by (simp add: scan_invariant_def)
  then show ?thesis by (simp add: load_voices_def scan_invariant_foldl)
qed

lemma samples_load_voices: "samples (load_voices w) = samples w"
  by (simp add: load_voices_def)

lemma load_voices_entry:
  assumes "voice_exists (load_voices w) b"
  shows "map_of (voices (load_voices w)) b =
           Some (txt_path b, if path_exists (samples w) (wav_path b) then wav_path b
                             else pt_path b)"
proof -
  from assms have "map_of (voices (load_voices w)) b \<noteq> None"
    unfolding voice_exists_def by (simp add: map_of_eq_None_iff)
  then obtain v where v: "map_of (voices (load_voices w)) b = Some v"
    by blast
  with scan_invariant_load [of w] show ?thesis
    unfolding scan_invariant_def by (cases v) auto
qed

lemma clone_voice_success:
  assumes "clone_voice e n t a w = ((Cloned n', u), w1)"
  shows "\<exists>bytes ref_codes.
           \<not> voice_exists w n \<and> n' = n
           \<and> uploads e (the a) = Some bytes \<and> encode_reference e bytes = Inr ref_codes
           \<and> w1 = w\<lparr>samples := write_file (pt_path n) (Encoding ref_codes)
                                   (write_file (wav_path n) (RawAudio bytes)
                                      (write_file (txt_path n) (Transcript (strip t)) (samples w))),
                     voices := AList.update n (txt_path n, pt_path n) (voices w)\<rparr>"
  using assms
  by (auto simp: clone_voice_def Let_def encode_file_def map_of_write_file
      split: if_splits option.splits sum.splits)

text \<open>The concrete world: its scan, and a clone of a second voice.\<close>

lemma splitext_amy: "splitext_root ''amy.txt'' = ''amy''"
  by (simp add: splitext_root_def rfind_def)

lemma load_voices_demo: "voices (load_voices demo_world) = [(''amy'', (''amy.txt'', ''amy.wav''))]"
  by (simp add: load_voices_def demo_world_def listdir_def scan_entry_def endswith_def splitext_amy
      path_exists_def txt_path_def wav_path_def pt_path_def)

lemma not_blank_bob: "\<not> blank ''bob''" "\<not> blank ''hi ''" "strip ''hi '' = ''hi''"
  by (simp_all add: blank_def strip_def isspace_def)

lemma clone_bob:
  "clone_voice demo_env ''bob'' ''hi '' (Some ''/tmp/ref.wav'') demo_world =
     ((Cloned ''bob'', Some ([''amy'', ''bob''], Some ''bob'')),
      demo_world\<lparr>samples := [(''amy.txt'', Transcript ''hello there ''), (''amy.wav'', RawAudio ''RIFF''),
                 (''amy.pt'', Encoding [4]), (''bob.txt'', Transcript ''hi''),
                 (''bob.wav'', RawAudio ''RIFF''), (''bob.pt'', Encoding [4])],
         voices := [(''amy'', (''amy.txt'', ''amy.pt'')), (''bob'', (''bob.txt'', ''bob.pt''))]\<rparr>)"
  by (simp add: clone_voice_def not_blank_bob voice_exists_def demo_world_def demo_env_def Let_def
      write_file_def txt_path_def wav_path_def pt_path_def encode_file_def get_voice_list_def)

subsection \<open>The scan of the samples directory\<close>

text \<open>
  Claim C2, as amended. A voice name is in the registry after \<^verbatim>\<open>load_voices\<close> if and
  only if it is a candidate of the scan (the root of a listed \<^verbatim>\<open>.txt\<close> file name) whose
  transcript file exists together with at least one of the raw audio file and the encoding
  file. The scan is a total function to a registry: a candidate that fails the test is
  absent from the result, and nothing is reported.
\<close>

theorem load_voices_includes_iff:
  "voice_exists (load_voices w) b \<longleftrightarrow>
     b \<in> set (candidates (samples w))
     \<and> path_exists (samples w) (txt_path b)
     \<and> (path_exists (samples w) (wav_path b) \<or> path_exists (samples w) (pt_path b))"
  unfolding voice_exists_def load_voices_def candidates_def
  by (simp add: dom_foldl_scan) auto

text \<open>
  Claim C2 as stated asks for exactly one of the raw audio and the encoding. In the
  concrete world the voice \<open>amy\<close> has its transcript, its raw audio and its encoding on
  disk, which is what a clone leaves behind, and the scan includes it.
\<close>

theorem load_voices_both_artifacts_counterexample:
  "\<not> (voice_exists (load_voices demo_world) ''amy'' \<longleftrightarrow>
        path_exists (samples demo_world) (txt_path ''amy'')
        \<and> (path_exists (samples demo_world) (wav_path ''amy'') \<noteq> path_exists (samples demo_world) (pt_path ''amy'')))"
  by (simp add: voice_exists_def load_voices_demo) (simp add: demo_world_def path_exists_def wav_path_def pt_path_def)

text \<open>The amended claim C2 at the concrete world: \<open>amy\<close> is included, \<open>bob\<close> is not.\<close>

theorem load_voices_includes_iff_witness:
  "voice_exists (load_voices demo_world) ''amy'' \<and> ''amy'' \<in> set (candidates (samples demo_world))
   \<and> \<not> voice_exists (load_voices demo_world) ''bob''"
  using load_voices_includes_iff [of demo_world "''amy''"] load_voices_includes_iff [of demo_world "''bob''"]
  by (simp add: demo_world_def path_exists_def txt_path_def wav_path_def pt_path_def candidates_def
      listdir_def endswith_def splitext_amy)

subsection \<open>Raw audio is preferred to the persisted encoding\<close>

text \<open>
  Claim C10. When the raw audio file of a registered voice exists (in particular when
  both raw audio and encoding exist), the entry that \<^verbatim>\<open>load_voices\<close> makes points at the
  raw audio, and \<^verbatim>\<open>load_reference\<close> on it calls \<^verbatim>\<open>encode_reference\<close> and not
  \<^verbatim>\<open>torch.load\<close>. The entry that a successful \<^verbatim>\<open>clone_voice\<close> inserts points at the
  encoding, with raw audio and encoding both on disk, and \<^verbatim>\<open>load_reference\<close> on it calls
  \<^verbatim>\<open>torch.load\<close>.
\<close>

theorem registry_prefers_raw_audio:
  "(voice_exists (load_voices w) b \<and> path_exists (samples w) (wav_path b) \<longrightarrow>
      map_of (voices (load_voices w)) b = Some (txt_path b, wav_path b)
      \<and> (\<forall>t. map_of (samples w) (txt_path b) = Some (Transcript t) \<longrightarrow>
             fst (load_reference e (load_voices w) b) = [CallEncodeReference (wav_path b)]))
   \<and> (clone_voice e n t a w = ((Cloned n, u), w1) \<longrightarrow>
        map_of (voices w1) n = Some (txt_path n, pt_path n)
        \<and> path_exists (samples w1) (wav_path n) \<and> path_exists (samples w1) (pt_path n)
        \<and> fst (load_reference e w1 n) = [CallTorchLoad (pt_path n)])"
proof (intro conjI impI allI)
  assume a: "voice_exists (load_voices w) b \<and> path_exists (samples w) (wav_path b)"
  then show m: "map_of (voices (load_voices w)) b = Some (txt_path b, wav_path b)"
    by (simp add: load_voices_entry)
  fix t assume "map_of (samples w) (txt_path b) = Some (Transcript t)"
  with a m show "fst (load_reference e (load_voices w) b) = [CallEncodeReference (wav_path b)]"
    by (simp add: load_reference_def samples_load_voices read_text_def endswith_wav_pt
        split: sum.splits)
next
  assume c: "clone_voice e n t a w = ((Cloned n, u), w1)"
  from clone_voice_success [OF c] obtain bytes ref_codes where
    w1: "w1 = w\<lparr>samples := write_file (pt_path n) (Encoding ref_codes)
                                   (write_file (wav_path n) (RawAudio bytes)
                                      (write_file (txt_path n) (Transcript (strip t)) (samples w))),
                     voices := AList.update n (txt_path n, pt_path n) (voices w)\<rparr>"
    by blast
  show "map_of (voices w1) n = Some (txt_path n, pt_path n)"
    by (simp add: w1 AList.update_conv')
  show "path_exists (samples w1) (wav_path n)"
    by (simp add: w1 path_exists_def map_of_write_file path_neq)
  show "path_exists (samples w1) (pt_path n)"
    by (simp add: w1 path_exists_def map_of_write_file)
  show "fst (load_reference e w1 n) = [CallTorchLoad (pt_path n)]"
    by (simp add: w1 load_reference_def voice_exists_def AList.dom_update AList.update_conv'
        read_text_def torch_load_def map_of_write_file path_neq path_neq [symmetric]
        endswith_pt_pt)
qed

text \<open>Claim C10 at the concrete world, for the scanned voice and for a freshly cloned one.\<close>

theorem registry_prefers_raw_audio_witness:
  "map_of (voices (load_voices demo_world)) ''amy'' = Some (''amy.txt'', ''amy.wav'')
   \<and> fst (load_reference demo_env (load_voices demo_world) ''amy'') = [CallEncodeReference ''amy.wav'']
   \<and> fst (load_reference demo_env
            (snd (clone_voice demo_env ''bob'' ''hi '' (Some ''/tmp/ref.wav'') demo_world)) ''bob'')
       = [CallTorchLoad ''bob.pt'']"
proof -
  have v: "voice_exists (load_voices demo_world) ''amy'' \<and> path_exists (samples demo_world) (wav_path ''amy'')"
    by (simp add: voice_exists_def load_voices_demo) (simp add: demo_world_def path_exists_def wav_path_def)
  have t: "map_of (samples demo_world) (txt_path ''amy'') = Some (Transcript ''hello there '')"
    by (simp add: demo_world_def txt_path_def)
  show ?thesis
    using v t registry_prefers_raw_audio [of demo_world "''amy''" demo_env "''bob''" "''hi ''"
        "Some ''/tmp/ref.wav''" "Some ([''amy'', ''bob''], Some ''bob'')"
        "snd (clone_voice demo_env ''bob'' ''hi '' (Some ''/tmp/ref.wav'') demo_world)"]
    by (simp add: clone_bob txt_path_def wav_path_def pt_path_def)
qed

subsection \<open>Clone and delete\<close>

text \<open>
  Claim C8. After a successful \<^verbatim>\<open>clone_voice\<close> of a name, \<^verbatim>\<open>delete_voice\<close> of that
  name succeeds, returns the voice list from before the clone, leaves the registry as it
  was before the clone, and leaves none of the three files of the voice on disk; every
  other file is as before.
\<close>

theorem clone_then_delete_restores:
  assumes "clone_voice e n t a w = ((Cloned n, u), w1)"
  shows "fst (fst (delete_voice n w1)) = Deleted n
         \<and> (\<exists>sel. snd (fst (delete_voice n w1)) = Some (get_voice_list w, sel))
         \<and> get_voice_list (snd (delete_voice n w1)) = get_voice_list w
         \<and> voices (snd (delete_voice n w1)) = voices w
         \<and> map_of (samples (snd (delete_voice n w1))) =
             (map_of (samples w))(txt_path n := None, wav_path n := None, pt_path n := None)
         \<and> \<not> path_exists (samples (snd (delete_voice n w1))) (txt_path n)
         \<and> \<not> path_exists (samples (snd (delete_voice n w1))) (wav_path n)
         \<and> \<not> path_exists (samples (snd (delete_voice n w1))) (pt_path n)"
proof -
  from clone_voice_success [OF assms] obtain bytes ref_codes where
    fresh: "\<not> voice_exists w n" and
    w1: "w1 = w\<lparr>samples := write_file (pt_path n) (Encoding ref_codes)
                                   (write_file (wav_path n) (RawAudio bytes)
                                      (write_file (txt_path n) (Transcript (strip t)) (samples w))),
                     voices := AList.update n (txt_path n, pt_path n) (voices w)\<rparr>"
    by blast
  have ex: "voice_exists w1 n"
    by (simp add: w1 voice_exists_def AList.dom_update)
  have v: "AList.delete n (AList.update n (txt_path n, pt_path n) (voices w)) = voices w"
    using fresh by (simp add: AList.delete_update_same voice_exists_def)
  have vs: "voices (snd (delete_voice n w1)) = voices w"
    using ex v by (simp add: delete_voice_def Let_def w1)
  have s: "map_of (samples (snd (delete_voice n w1))) =
             (map_of (samples w))(txt_path n := None, wav_path n := None, pt_path n := None)"
    using ex
    by (simp add: delete_voice_def Let_def w1 map_of_unlink_if_exists map_of_write_file
        path_neq path_neq [symmetric] fun_upd_twist)
  have r: "fst (fst (delete_voice n w1)) = Deleted n
           \<and> (\<exists>sel. snd (fst (delete_voice n w1)) = Some (get_voice_list w, sel))"
    using ex v by (simp add: delete_voice_def Let_def w1 get_voice_list_def)
  show ?thesis
    using r vs s by (simp add: get_voice_list_def path_exists_def path_neq)
qed

text \<open>Claim C8 at the concrete world: \<open>bob\<close> is cloned and deleted again.\<close>

theorem clone_then_delete_restores_witness:
  "fst (fst (clone_voice demo_env ''bob'' ''hi '' (Some ''/tmp/ref.wav'') demo_world)) = Cloned ''bob''
   \<and> get_voice_list (snd (delete_voice ''bob''
         (snd (clone_voice demo_env ''bob'' ''hi '' (Some ''/tmp/ref.wav'') demo_world)))) = [''amy'']
   \<and> \<not> path_exists (samples (snd (delete_voice ''bob''
         (snd (clone_voice demo_env ''bob'' ''hi '' (Some ''/tmp/ref.wav'') demo_world))))) ''bob.wav''"
proof -
  let ?w1 = "snd (clone_voice demo_env ''bob'' ''hi '' (Some ''/tmp/ref.wav'') demo_world)"
  have c: "clone_voice demo_env ''bob'' ''hi '' (Some ''/tmp/ref.wav'') demo_world =
             ((Cloned ''bob'', Some ([''amy'', ''bob''], Some ''bob'')), ?w1)"
    by (simp add: clone_bob)
  have l: "get_voice_list demo_world = [''amy'']"
    by (simp add: get_voice_list_def demo_world_def)
  from clone_then_delete_restores [OF c]
  have "get_voice_list (snd (delete_voice ''bob'' ?w1)) = get_voice_list demo_world"
    and "\<not> path_exists (samples (snd (delete_voice ''bob'' ?w1))) (wav_path ''bob'')"
    by blast+
  moreover have "fst (fst (clone_voice demo_env ''bob'' ''hi '' (Some ''/tmp/ref.wav'') demo_world))
                 = Cloned ''bob''"
    by (simp add: clone_bob)
  ultimately show ?thesis
    using l by (simp add: wav_path_def)
qed





subsection \<open>Speed adjustment\<close>

lemma np_round_near: "\<bar>of_int (np_round x) - x\<bar> \<le> 1 / 2"
  unfolding np_round_def Let_def by (auto; linarith)

lemma np_round_bounds:
  assumes "of_int m \<le> x" "x \<le> of_int n"
  shows "m \<le> np_round x \<and> np_round x \<le> n"
proof -
  have lo: "m \<le> \<lfloor>x\<rfloor>" using assms(1) by (simp add: le_floor_iff)
  have hi: "\<lfloor>x\<rfloor> \<le> n" using assms(2) by (simp add: floor_le_iff)
  have up: "\<lfloor>x\<rfloor> + 1 \<le> n" if "1 / 2 \<le> x - of_int \<lfloor>x\<rfloor>"
  proof -
    from that have "of_int \<lfloor>x\<rfloor> < x" by linarith
    with assms(2) have "of_int \<lfloor>x\<rfloor> < (of_int n :: real)" by linarith
    then have "\<lfloor>x\<rfloor> < n" by simp
    then show ?thesis by simp
  qed
  show ?thesis
    unfolding np_round_def Let_def using lo hi up by auto
qed

lemma np_round_zero: "np_round 0 = 0"
  by (simp add: np_round_def)

lemma linspace_length: "length (linspace a b n) = n"
  by (simp add: linspace_def)

lemma linspace_nth:
  "k < n \<Longrightarrow> linspace 0 b n ! k = (if n = 1 then 0 else real k * (b / real (n - 1)))"
  by (auto simp: linspace_def)

lemma linspace_range:
  assumes "k < n" "0 \<le> b"
  shows "0 \<le> linspace 0 b n ! k \<and> linspace 0 b n ! k \<le> b"
proof (cases "n = 1")
  case True
  with assms show ?thesis by (simp add: linspace_def)
next
  case False
  with assms have n: "2 \<le> n" by simp
  then have pos: "0 < real (n - 1)" by simp
  have "real k \<le> real (n - 1)" using assms(1) by simp
  then have "real k * (b / real (n - 1)) \<le> real (n - 1) * (b / real (n - 1))"
    using assms(2) pos by (intro mult_right_mono) simp_all
  also have "\<dots> = b" using pos by simp
  finally have "real k * (b / real (n - 1)) \<le> b" .
  moreover have "0 \<le> real k * (b / real (n - 1))" using assms(2) by simp
  ultimately show ?thesis using assms(1) False by (simp add: linspace_nth)
qed

lemma speed_indices_in_range:
  assumes "x \<in> set (linspace 0 (of_int (int (length a) - 1)) n)" "0 < length a"
  shows "0 \<le> np_round x \<and> np_round x < int (length a)"
proof -
  let ?b = "of_int (int (length a) - 1) :: real"
  from assms(1) obtain k where k: "k < n" "x = linspace 0 ?b n ! k"
    by (auto simp: in_set_conv_nth linspace_length)
  have "1 \<le> int (length a)" using assms(2) by linarith
  then have b: "0 \<le> ?b" by simp
  from linspace_range [OF k(1) b] k(2) have "of_int 0 \<le> x" "x \<le> of_int (int (length a) - 1)"
    by simp_all
  from np_round_bounds [OF this] show ?thesis by simp
qed

lemma apply_speed_adjustment_positive:
  assumes "0 < speed" "speed \<noteq> 1"
  shows "apply_speed_adjustment a speed =
           Inr (map (\<lambda>x. a ! nat (np_round x))
                  (linspace 0 (of_int (int (length a) - 1))
                     (nat \<lfloor>real (length a) / speed\<rfloor>)))"
proof -
  let ?n = "nat \<lfloor>real (length a) / speed\<rfloor>"
  let ?pts = "linspace 0 (of_int (int (length a) - 1)) ?n"
  have nn: "0 \<le> real (length a) / speed" using assms(1) by simp
  then have t: "py_int (real (length a) / speed) = \<lfloor>real (length a) / speed\<rfloor>"
    by (simp add: py_int_def)
  have t0: "\<not> \<lfloor>real (length a) / speed\<rfloor> < 0" using nn by simp
  have len: "0 < length a" if "x \<in> set ?pts" for x
  proof (rule ccontr)
    assume "\<not> 0 < length a"
    then have "?n = 0" by simp
    then have "?pts = []" by (simp add: linspace_def)
    with that show False by simp
  qed
  have rng: "0 \<le> np_round x \<and> np_round x < int (length a)" if "x \<in> set ?pts" for x
    using speed_indices_in_range [OF that len [OF that]] .
  have all: "list_all (\<lambda>i. - int (length a) \<le> i \<and> i < int (length a)) (map np_round ?pts)"
    using rng by (fastforce simp: list_all_iff)
  have m: "map (\<lambda>i. a ! nat (if i < 0 then i + int (length a) else i)) (map np_round ?pts)
           = map (\<lambda>x. a ! nat (np_round x)) ?pts"
  proof -
    have "a ! nat (if np_round x < 0 then np_round x + int (length a) else np_round x)
          = a ! nat (np_round x)" if "x \<in> set ?pts" for x
      using rng [OF that] by simp
    then show ?thesis by (simp add: o_def cong: map_cong)
  qed
  show ?thesis
    using assms t0 all m
    by (simp add: apply_speed_adjustment_def t fancy_index_def Let_def del: map_map)
qed

lemma speed_demo: "apply_speed_adjustment [1, 2, 3, 4, 5] 2 = Inr [1, 5]"
proof -
  have u: "[0..<2] = [0, Suc 0]" by (simp add: eval_nat_numeral upt_rec)
  show ?thesis
    by (simp add: apply_speed_adjustment_def py_int_def linspace_def u np_round_def
        fancy_index_def Let_def)
qed

text \<open>
  Claim C7. At speed 1 the waveform is returned as it is. At speed 2 the result has
  \<open>length a div 2\<close> samples, and its \<open>k\<close>-th sample is the input sample at an index within
  one half of the \<open>k\<close>-th point of the axis \<^verbatim>\<open>np.linspace(0, len - 1, len // 2)\<close>, that is
  at a nearest index. (Floats are real numbers here; halving a length is exact in floats.)
\<close>

theorem speed_adjustment_lengths:
  "apply_speed_adjustment a 1 = Inr a
   \<and> (\<exists>out. apply_speed_adjustment a 2 = Inr out \<and> length out = length a div 2
        \<and> (\<forall>k<length out. \<exists>i<length a. out ! k = a ! i
              \<and> \<bar>real i - linspace 0 (of_int (int (length a) - 1)) (length a div 2) ! k\<bar> \<le> 1 / 2))"
proof (intro conjI)
  show "apply_speed_adjustment a 1 = Inr a"
    by (simp add: apply_speed_adjustment_def)
next
  let ?n = "length a div 2"
  let ?pts = "linspace 0 (of_int (int (length a) - 1)) ?n"
  let ?out = "map (\<lambda>x. a ! nat (np_round x)) ?pts"
  have "real (length a) / 2 = real (length a) / real 2" by simp
  then have n: "nat \<lfloor>real (length a) / 2\<rfloor> = ?n"
    by (simp only: floor_divide_of_nat_eq nat_int)
  have out: "apply_speed_adjustment a 2 = Inr ?out"
    using apply_speed_adjustment_positive [of 2 a] by (simp add: n)
  have len: "length ?out = ?n" by (simp add: linspace_length)
  have near: "\<exists>i<length a. ?out ! k = a ! i \<and> \<bar>real i - ?pts ! k\<bar> \<le> 1 / 2"
    if "k < length ?out" for k
  proof -
    from that have k: "k < ?n" by (simp add: linspace_length)
    then have pos: "0 < length a" by (cases "length a") simp_all
    have mem: "?pts ! k \<in> set ?pts" using k by (simp add: linspace_length)
    from speed_indices_in_range [OF mem pos]
    have r: "0 \<le> np_round (?pts ! k)" "np_round (?pts ! k) < int (length a)" by simp_all
    have "real (nat (np_round (?pts ! k))) = of_int (np_round (?pts ! k))"
      using r(1) by simp
    with np_round_near [of "?pts ! k"]
    have "\<bar>real (nat (np_round (?pts ! k))) - ?pts ! k\<bar> \<le> 1 / 2" by simp
    moreover have "nat (np_round (?pts ! k)) < length a" using r by linarith
    moreover have "?out ! k = a ! nat (np_round (?pts ! k))"
      using k by (simp add: linspace_length)
    ultimately show ?thesis by blast
  qed
  show "\<exists>out. apply_speed_adjustment a 2 = Inr out \<and> length out = ?n
        \<and> (\<forall>k<length out. \<exists>i<length a. out ! k = a ! i \<and> \<bar>real i - ?pts ! k\<bar> \<le> 1 / 2)"
    using out len near by blast
qed

text \<open>Claim C7 on a waveform of five samples.\<close>

theorem speed_adjustment_lengths_witness:
  "apply_speed_adjustment [1, 2, 3, 4, 5] 1 = Inr [1, 2, 3, 4, 5]
   \<and> apply_speed_adjustment [1, 2, 3, 4, 5] 2 = Inr [1, 5]
   \<and> length [1, 5 :: real] = length [1, 2, 3, 4, 5 :: real] div 2"
  using speed_adjustment_lengths [of "[1, 2, 3, 4, 5]"] by (simp add: speed_demo)

subsection \<open>The events of a generation job\<close>

lemma yields_append: "yields (a @ b) = yields a @ yields b"
  by (induction a rule: yields.induct) simp_all

lemma chunk_loop_Cons:
  "chunk_loop e st N rc rt i (c # cs) res w =
     (let w2 = w\<lparr>clock_reads := Suc (clock_reads w), infer_calls := Suc (infer_calls w)\<rparr>;
          res' = (case infer e (infer_calls w) c rc rt of
                    Inl x \<Rightarrow> res | Inr a \<Rightarrow> res @ [(i - 1, a)]);
          r = chunk_loop e st N rc rt (Suc i) cs res' w2
      in (Yield (chunk_progress_event e st N i (clock_reads w)) # CallInfer c rc rt # fst r,
          snd r))"
  by (simp add: Let_def process_chunk_def chunk_progress_event_def case_prod_beta
      split: sum.splits)

lemma chunk_loop_yields:
  "yields (fst (chunk_loop e st N rc rt i chunks res w)) =
     map (\<lambda>k. chunk_progress_event e st N (i + k) (clock_reads w + k)) [0..<length chunks]"
proof (induction chunks arbitrary: i res w)
  case Nil
  then show ?case by simp
next
  case (Cons c cs)
  have "[0..<length (c # cs)] = 0 # map Suc [0..<length cs]"
    by (simp add: upt_conv_Cons map_Suc_upt del: upt_Suc)
  then show ?case
    by (simp add: chunk_loop_Cons Let_def Cons.IH o_def del: chunk_loop.simps upt_Suc)
qed

lemma chunk_loop_trace_nth:
  "k < length chunks \<Longrightarrow>
     fst (chunk_loop e st N rc rt i chunks res w) ! (2 * k) =
       Yield (chunk_progress_event e st N (i + k) (clock_reads w + k))
     \<and> fst (chunk_loop e st N rc rt i chunks res w) ! (2 * k + 1) = CallInfer (chunks ! k) rc rt"
proof (induction chunks arbitrary: i res w k)
  case Nil
  then show ?case by simp
next
  case (Cons c cs)
  show ?case
  proof (cases k)
    case 0
    then show ?thesis by (simp add: chunk_loop_Cons Let_def del: chunk_loop.simps)
  next
    case (Suc k')
    with Cons.prems have "k' < length cs" by simp
    from Cons.IH [OF this] Suc show ?thesis
      by (simp add: chunk_loop_Cons Let_def del: chunk_loop.simps)
  qed
qed

lemma chunk_loop_trace_length:
  "length (fst (chunk_loop e st N rc rt i chunks res w)) = 2 * length chunks"
  by (induction chunks arbitrary: i res w)
    (simp_all add: chunk_loop_Cons Let_def del: chunk_loop.simps(2))






lemma chunk_loop_results:
  "fst (snd (chunk_loop e st N rc rt i chunks res w)) =
     res @ map (\<lambda>k. (i + k - 1, projr (infer e (infer_calls w + k) (chunks ! k) rc rt)))
             (filter (\<lambda>k. \<not> isl (infer e (infer_calls w + k) (chunks ! k) rc rt))
                [0..<length chunks])"
proof (induction chunks arbitrary: i res w)
  case Nil
  then show ?case by simp
next
  case (Cons c cs)
  have u: "[0..<length (c # cs)] = 0 # map Suc [0..<length cs]"
    by (simp add: upt_conv_Cons map_Suc_upt del: upt_Suc)
  show ?case
    unfolding u
    by (cases "infer e (infer_calls w) c rc rt")
      (simp_all add: chunk_loop_Cons Let_def Cons.IH filter_map o_def
        del: chunk_loop.simps upt_Suc)
qed


lemma in_flight_prefix: "in_flight (a @ b) \<Longrightarrow> in_flight a"
  by (auto simp: in_flight_def sorted_append)

lemma chunk_progress_event_progress:
  "progress (chunk_progress_event e st N i reads) = 15 + int ((75 * i) div N)"
  "audio_path (chunk_progress_event e st N i reads) = None"
  by (simp_all add: chunk_progress_event_def progress_event_def progress_floor)

lemma div_le_75: "i \<le> N \<Longrightarrow> (75 * i) div N \<le> (75 :: nat)"
proof (cases "N = 0")
  case True
  then show ?thesis by simp
next
  case False
  assume "i \<le> N"
  then have "75 * i \<le> 75 * N" by simp
  then have "(75 * i) div N \<le> (75 * N) div N" by (rule div_le_mono)
  with False show ?thesis by simp
qed

lemma loop_events_in_flight:
  "in_flight (progress_event 10 s1 # progress_event 15 s2 #
      map (\<lambda>k. chunk_progress_event e st N (Suc k) (c + k)) [0..<N] @ [progress_event 90 s3])"
proof -
  let ?p = "\<lambda>k. 15 + int ((75 * Suc k) div N)"
  let ?evs = "map (\<lambda>k. chunk_progress_event e st N (Suc k) (c + k)) [0..<N]"
  have m: "map progress ?evs = map ?p [0..<N]"
    by (simp add: chunk_progress_event_progress)
  have mono: "?p x \<le> ?p y" if "x \<le> y" for x y
    using that by (simp add: div_le_mono)
  have "sorted_wrt (\<lambda>x y. ?p x \<le> ?p y) [0..<N]"
  proof (rule sorted_wrt_mono_rel [of _ "(<)"])
    show "sorted_wrt (<) [0..<N]" by simp
  next
    fix x y :: nat assume "x < y"
    then show "?p x \<le> ?p y" using mono [of x y] by simp
  qed
  then have "sorted (map ?p [0..<N])" by (simp only: sorted_map)
  then have s: "sorted (map progress ?evs)" by (simp only: m)
  have b: "15 \<le> progress ev \<and> progress ev \<le> 90 \<and> audio_path ev = None" if "ev \<in> set ?evs" for ev
  proof -
    from that obtain k where k: "k < N" "ev = chunk_progress_event e st N (Suc k) (c + k)"
      by auto
    from div_le_75 [of "Suc k" N] k(1) have "(75 * Suc k) div N \<le> 75" by simp
    with k(2) show ?thesis by (simp add: chunk_progress_event_progress)
  qed
  have b1: "15 \<le> x \<and> x \<le> 90" if "x \<in> set (map progress ?evs)" for x
  proof -
    from that obtain ev where "ev \<in> set ?evs" "x = progress ev"
      unfolding set_map by blast
    with b [of ev] show ?thesis by simp
  qed
  have "sorted (10 # 15 # map progress ?evs @ [90])"
    unfolding sorted_append sorted_simps using s b1 by fastforce
  moreover have "\<forall>ev \<in> set (progress_event 10 s1 # progress_event 15 s2 # ?evs @ [progress_event 90 s3]).
                   10 \<le> progress ev \<and> progress ev \<le> 90 \<and> audio_path ev = None"
  proof
    fix ev assume "ev \<in> set (progress_event 10 s1 # progress_event 15 s2 # ?evs @ [progress_event 90 s3])"
    then consider "ev = progress_event 10 s1" | "ev = progress_event 15 s2" | "ev \<in> set ?evs"
      | "ev = progress_event 90 s3"
      unfolding set_simps set_append by blast
    then show "10 \<le> progress ev \<and> progress ev \<le> 90 \<and> audio_path ev = None"
    proof cases
      case 3
      with b [of ev] show ?thesis by simp
    qed (simp_all add: progress_event_def)
  qed
  ultimately show ?thesis
    unfolding in_flight_def by (simp add: progress_event_def del: map_map)
qed

lemma load_reference_clock:
  "load_reference e (w\<lparr>clock_reads := n\<rparr>) vn = load_reference e w vn"
  by (simp add: load_reference_def voice_exists_def Let_def
      split: option.splits sum.splits prod.splits)

lemma yields_load_reference: "yields (fst (load_reference e w vn)) = []"
  by (simp add: load_reference_def Let_def split: option.splits sum.splits prod.splits)

lemma length_load_reference:
  "load_reference e w vn = (tr_ref, Inr r) \<Longrightarrow> length tr_ref = 1"
  by (auto simp: load_reference_def Let_def split: option.splits sum.splits prod.splits if_splits)

lemma butlast_snoc2: "butlast (xs @ [a, b]) = xs @ [a]"
  by (simp add: butlast_append)

lemma generate_body_events:
  "case fst (snd (generate_body e text vn speed w)) of
     Inl x \<Rightarrow> in_flight (yields (fst (generate_body e text vn speed w)))
   | Inr u \<Rightarrow>
       yields (fst (generate_body e text vn speed w)) \<noteq> []
       \<and> in_flight (butlast (yields (fst (generate_body e text vn speed w))))
       \<and> is_success (last (yields (fst (generate_body e text vn speed w))))"
proof -
  obtain tr_ref loaded where lr: "load_reference e w vn = (tr_ref, loaded)"
    by fastforce
  have yr: "yields tr_ref = []"
    using yields_load_reference [of e w vn] lr by simp
  let ?ev10 = "progress_event 10 LoadingReference"
  have f10: "in_flight [?ev10]"
    by (simp add: in_flight_def progress_event_def)
  show ?thesis
  proof (cases loaded)
    case (Inl x)
    then show ?thesis
      using f10 by (simp add: generate_body_def Let_def load_reference_clock lr yr)
  next
    case (Inr r)
    obtain rt rc where r: "r = (rt, rc)" by fastforce
    let ?chunks = "split_text_into_chunks e text"
    let ?N = "length ?chunks"
    let ?ev15 = "progress_event 15 (EstimatedTime (real (estimate_generation_time ?N)) ?N)"
    let ?evs = "map (\<lambda>k. chunk_progress_event e (time_time e (clock_reads w)) ?N (Suc k)
                          (Suc (clock_reads w) + k)) [0..<?N]"
    have M: "in_flight (?ev10 # ?ev15 # ?evs @ [progress_event 90 Finalizing])"
      by (rule loop_events_in_flight)
    have M1: "in_flight (?ev10 # ?ev15 # ?evs)"
      using in_flight_prefix [of "?ev10 # ?ev15 # ?evs" "[progress_event 90 Finalizing]"] M
      by simp
    show ?thesis
    proof (cases "?chunks = []")
      case True
      then show ?thesis
        using f10 Inr r by (simp add: generate_body_def Let_def load_reference_clock lr yr)
    next
      case False
      then show ?thesis
        using M M1 Inr r
        by (simp add: generate_body_def Let_def load_reference_clock lr yr case_prod_beta
            yields_append chunk_loop_yields is_success_def butlast_snoc2
            split: sum.splits option.splits)
    qed
  qed
qed

lemma in_flight_nonterminal:
  "in_flight evs \<Longrightarrow>
     sorted (map progress evs) \<and> (\<forall>ev \<in> set evs. \<not> is_success ev \<and> \<not> is_error ev)"
  by (auto simp: in_flight_def is_success_def is_error_def)

lemma is_error_error_event:
  "is_error (error_event EmptyTextError)" "is_error (error_event NoVoiceError)"
  "is_error (error_event (VoiceNotFoundError v))" "is_error (error_event (GenerationError x))"
  by (simp_all add: is_error_def error_event_def)

lemma demo_chunks:
  "split_text_into_chunks demo_env ''one|two'' = [''one'', ''two'']"
  "split_text_into_chunks demo_env ''one|bad|three'' = [''one'', ''bad'', ''three'']"
  "split_text_into_chunks demo_env ''bad|bad'' = [''bad'', ''bad'']"
  by (simp_all add: demo_env_def)

lemma demo_valid:
  "\<not> blank ''one|two''" "\<not> blank ''one|bad|three''" "\<not> blank ''bad|bad''"
  "voice_exists demo_world ''amy''"
  by (simp_all add: blank_def strip_def isspace_def voice_exists_def demo_world_def)

lemma demo_reference:
  "load_reference demo_env demo_world ''amy'' =
     ([CallTorchLoad ''amy.pt''], Inr (''hello there'', [4]))"
  by (simp add: load_reference_def voice_exists_def demo_world_def read_text_def torch_load_def
      endswith_def strip_def isspace_def)

lemma demo_infer:
  "infer demo_env k ''one'' rc rt = Inr [3]"
  "infer demo_env k ''two'' rc rt = Inr [3]"
  "infer demo_env k ''three'' rc rt = Inr [5]"
  "infer demo_env k ''bad'' rc rt = Inl ''inference failed''"
  "sf_write demo_env a = None"
  "time_time demo_env k = 2 * real k"
  by (simp_all add: demo_env_def)

lemma demo_run:
  "generate_speech demo_env ''one|two'' (Some ''amy'') 1 demo_world =
     ([Yield (progress_event 10 LoadingReference),
       CallTorchLoad ''amy.pt'',
       Yield (progress_event 15 (EstimatedTime 8 2)),
       Yield (progress_event 52 (ProcessingChunk 1 2 52 None)),
       CallInfer ''one'' [4] ''hello there'',
       Yield (progress_event 90 (ProcessingChunk 2 2 90 (Some 4))),
       CallInfer ''two'' [4] ''hello there'',
       Yield (progress_event 90 Finalizing),
       CallSfWrite ([3] @ silence @ [3]),
       Yield \<lparr>progress = 100, audio_path = Some TEMP_OUTPUT_PATH,
              status_message = GenerationComplete 6, delete_status = None\<rparr>],
      demo_world\<lparr>infer_calls := 2, clock_reads := 4,
                 temp_output := Some ([3] @ silence @ [3])\<rparr>)"
  by (simp add: generate_speech_def generate_body_def demo_valid demo_chunks
      load_reference_clock demo_reference Let_def process_chunk_def demo_infer
      estimate_generation_time_def py_int_def concatenate_chunks_def)
    (simp add: demo_world_def numeral_2_eq_2)

text \<open>
  Claim C3. For every text, voice name, speed, environment and world, the events of
  \<^verbatim>\<open>generate_speech\<close> are a finite non-empty list (the function is total, and its result
  has no exceptional alternative: whatever a collaborator raises ends in an error event).
  The progress values of all events but the last are non-decreasing, none of these events
  is terminal, and the last event is terminal: a success with progress 100 or an error
  with progress 0.
\<close>

theorem generate_speech_events:
  "let evs = yields (fst (generate_speech e text voice_name speed w))
   in evs \<noteq> []
      \<and> sorted (map progress (butlast evs))
      \<and> (\<forall>ev \<in> set (butlast evs). \<not> is_success ev \<and> \<not> is_error ev)
      \<and> (is_success (last evs) \<or> is_error (last evs))"
proof -
  let ?b = "generate_body e text (the voice_name) speed w"
  obtain tr r w' where b: "?b = (tr, r, w')"
    by (cases ?b) auto
  have ev: "case r of
              Inl x \<Rightarrow> in_flight (yields tr)
            | Inr u \<Rightarrow> yields tr \<noteq> [] \<and> in_flight (butlast (yields tr))
                       \<and> is_success (last (yields tr))"
    using generate_body_events [of e "text" "the voice_name" speed w]
    unfolding b fst_conv snd_conv .
  show ?thesis
  proof (cases r)
    case (Inl x)
    with ev have "in_flight (yields tr)" by simp
    from in_flight_nonterminal [OF this] Inl b show ?thesis
      by (simp add: generate_speech_def Let_def yields_append is_error_error_event)
  next
    case (Inr u)
    with ev have "yields tr \<noteq> []" "in_flight (butlast (yields tr))"
      "is_success (last (yields tr))" by simp_all
    with in_flight_nonterminal [of "butlast (yields tr)"] Inr b show ?thesis
      by (simp add: generate_speech_def Let_def is_error_error_event)
  qed
qed

text \<open>Claim C3 on a job of two chunks in the concrete environment.\<close>

theorem generate_speech_events_witness:
  "map progress (yields (fst (generate_speech demo_env ''one|two'' (Some ''amy'') 1 demo_world)))
     = [10, 15, 52, 90, 90, 100]
   \<and> sorted [10, 15, 52, 90, 90 :: int]
   \<and> is_success (last (yields (fst (generate_speech demo_env ''one|two'' (Some ''amy'') 1
                                        demo_world))))"
  using generate_speech_events [of demo_env "''one|two''" "Some ''amy''" 1 demo_world]
  by (simp add: demo_run Let_def progress_event_def is_success_def is_error_def)

subsection \<open>A job in which every chunk fails\<close>

lemma chunk_loop_no_sf_write: "CallSfWrite a \<notin> set (fst (chunk_loop e st N rc rt i chunks res w))"
  by (induction chunks arbitrary: i res w)
    (simp_all add: chunk_loop_Cons Let_def del: chunk_loop.simps(2))

lemma load_reference_no_sf_write: "CallSfWrite a \<notin> set (fst (load_reference e w vn))"
  by (simp add: load_reference_def Let_def split: option.splits sum.splits prod.splits)

lemma chunk_loop_all_fail:
  assumes "\<forall>k<length chunks. isl (infer e (infer_calls w + k) (chunks ! k) rc rt)"
  shows "fst (snd (chunk_loop e st N rc rt i chunks [] w)) = []"
proof -
  have "filter (\<lambda>k. \<not> isl (infer e (infer_calls w + k) (chunks ! k) rc rt)) [0..<length chunks] = []"
    using assms by (simp add: filter_empty_conv)
  then show ?thesis by (simp add: chunk_loop_results)
qed

lemma demo_fail_all: "k < 2 \<Longrightarrow> [''bad'', ''bad''] ! k = ''bad''"
  by (cases k) simp_all

text \<open>
  Claim C5. A job that passes the validation, loads its reference and has at least one
  chunk, and in which \<^verbatim>\<open>tts_model.infer\<close> raises for every chunk, yields the two set-up
  events, one progress event for each chunk and then, as its last event, the error event
  with progress 0 and the message \<open>Failed to generate any audio\<close>. No earlier event is
  terminal, \<^verbatim>\<open>sf.write\<close> is never called and the output file is as it was.
\<close>

theorem all_chunks_fail:
  assumes "\<not> blank text" and "vn \<noteq> []" and "voice_exists w vn"
    and "load_reference e w vn = (tr_ref, Inr (rt, rc))"
    and "split_text_into_chunks e text = chunks" and "1 \<le> length chunks"
    and "\<forall>k<length chunks. isl (infer e (infer_calls w + k) (chunks ! k) rc rt)"
  shows "let (tr, w') = generate_speech e text (Some vn) speed w
         in length (yields tr) = length chunks + 3
            \<and> last (yields tr) = error_event (GenerationError ''Failed to generate any audio'')
            \<and> (\<forall>ev \<in> set (butlast (yields tr)). \<not> is_error ev \<and> \<not> is_success ev)
            \<and> (\<forall>a. CallSfWrite a \<notin> set tr)
            \<and> temp_output w' = temp_output w"
proof -
  let ?w0 = "w\<lparr>clock_reads := Suc (clock_reads w)\<rparr>"
  let ?L = "chunk_loop e (time_time e (clock_reads w)) (length chunks) rc rt 1 chunks [] ?w0"
  let ?tr1 = "Yield (progress_event 10 LoadingReference) # tr_ref @
              Yield (progress_event 15
                (EstimatedTime (real (estimate_generation_time (length chunks))) (length chunks)))
              # fst ?L"
  have ne: "chunks \<noteq> []" using assms(6) by auto
  have res: "fst (snd ?L) = []"
    using assms(7) by (intro chunk_loop_all_fail) simp
  have b: "generate_body e text vn speed w =
             (?tr1, Inl ''Failed to generate any audio'', snd (snd ?L))"
    using ne res
    by (simp add: generate_body_def Let_def load_reference_clock assms(4,5) case_prod_beta)
  have g: "generate_speech e text (Some vn) speed w =
             (?tr1 @ [Yield (error_event (GenerationError ''Failed to generate any audio''))],
              snd (snd ?L))"
    using assms(1,2,3) by (simp add: generate_speech_def b)
  have yr: "yields tr_ref = []"
    using yields_load_reference [of e w vn] assms(4) by simp
  have fl: "in_flight (yields ?tr1)"
    using generate_body_events [of e "text" vn speed w] unfolding b fst_conv snd_conv
    by simp
  have len: "length (yields ?tr1) = length chunks + 2"
    by (simp add: yields_append yr chunk_loop_yields)
  have nosf: "CallSfWrite a \<notin> set ?tr1" for a
    using load_reference_no_sf_write [of a e w vn] assms(4)
    by (simp add: chunk_loop_no_sf_write)
  have out: "temp_output (snd (snd ?L)) = temp_output w"
    by (simp add: chunk_loop_world)
  define tr1 where "tr1 = ?tr1"
  define w1 where "w1 = snd (snd ?L)"
  note facts = in_flight_nonterminal [OF fl] len nosf out g
  have "generate_speech e text (Some vn) speed w =
          (tr1 @ [Yield (error_event (GenerationError ''Failed to generate any audio''))], w1)"
    and "\<forall>ev \<in> set (yields tr1). \<not> is_success ev \<and> \<not> is_error ev"
    and "length (yields tr1) = length chunks + 2"
    and "\<forall>a. CallSfWrite a \<notin> set tr1"
    and "temp_output w1 = temp_output w"
    using facts unfolding tr1_def w1_def by blast+
  then show ?thesis
    by (simp add: yields_append)
qed

text \<open>Claim C5 on a job of two failing chunks in the concrete environment.\<close>

theorem all_chunks_fail_witness:
  "\<not> blank ''bad|bad'' \<and> voice_exists demo_world ''amy''
   \<and> load_reference demo_env demo_world ''amy'' =
       ([CallTorchLoad ''amy.pt''], Inr (''hello there'', [4]))
   \<and> split_text_into_chunks demo_env ''bad|bad'' = [''bad'', ''bad'']
   \<and> isl (infer demo_env (infer_calls demo_world + 0) ([''bad'', ''bad''] ! 0) [4] ''hello there'')
   \<and> isl (infer demo_env (infer_calls demo_world + 1) ([''bad'', ''bad''] ! 1) [4] ''hello there'')
   \<and> (let (tr, w') = generate_speech demo_env ''bad|bad'' (Some ''amy'') 1 demo_world
      in length (yields tr) = 5
         \<and> last (yields tr) = error_event (GenerationError ''Failed to generate any audio'')
         \<and> temp_output w' = temp_output demo_world)"
proof -
  have f: "\<forall>k<length [''bad'', ''bad''].
             isl (infer demo_env (infer_calls demo_world + k) ([''bad'', ''bad''] ! k) [4]
                    ''hello there'')"
    by (simp add: demo_fail_all demo_infer)
  have n: "''amy'' \<noteq> []" "1 \<le> length [''bad'', ''bad'']" by simp_all
  from all_chunks_fail [OF demo_valid(3) n(1) demo_valid(4) demo_reference demo_chunks(3) n(2) f,
      of 1]
  show ?thesis
    by (simp add: demo_valid demo_reference demo_chunks demo_infer case_prod_beta)
qed

subsection \<open>A job in which one chunk fails\<close>








subsection \<open>The progress event of a chunk\<close>

lemma generate_body_prefix:
  assumes "load_reference e w vn = (tr_ref, Inr (rt, rc))"
    and "split_text_into_chunks e text = chunks" and "chunks \<noteq> []"
  shows "\<exists>rest. fst (generate_body e text vn speed w) =
           (Yield (progress_event 10 LoadingReference) # tr_ref @
            Yield (progress_event 15
              (EstimatedTime (real (estimate_generation_time (length chunks))) (length chunks)))
            # fst (chunk_loop e (time_time e (clock_reads w)) (length chunks) rc rt 1 chunks []
                   (w\<lparr>clock_reads := Suc (clock_reads w)\<rparr>))) @ rest"
  using assms(3)
  by (simp add: generate_body_def Let_def load_reference_clock assms(1,2) case_prod_beta
      del: chunk_loop.simps split: sum.splits option.splits)

lemma generate_speech_prefix:
  assumes "\<not> blank text" and "vn \<noteq> []" and "voice_exists w vn"
    and "load_reference e w vn = (tr_ref, Inr (rt, rc))"
    and "split_text_into_chunks e text = chunks" and "chunks \<noteq> []"
  shows "\<exists>a rest. fst (generate_speech e text (Some vn) speed w) =
           (Yield (progress_event 10 LoadingReference) # a #
            Yield (progress_event 15
              (EstimatedTime (real (estimate_generation_time (length chunks))) (length chunks)))
            # fst (chunk_loop e (time_time e (clock_reads w)) (length chunks) rc rt 1 chunks []
                   (w\<lparr>clock_reads := Suc (clock_reads w)\<rparr>))) @ rest"
proof -
  from length_load_reference [OF assms(4)] obtain a where a: "tr_ref = [a]"
    by (cases tr_ref) auto
  from generate_body_prefix [OF assms(4,5,6), of speed] obtain rest where
    r: "fst (generate_body e text vn speed w) =
           (Yield (progress_event 10 LoadingReference) # tr_ref @
            Yield (progress_event 15
              (EstimatedTime (real (estimate_generation_time (length chunks))) (length chunks)))
            # fst (chunk_loop e (time_time e (clock_reads w)) (length chunks) rc rt 1 chunks []
                   (w\<lparr>clock_reads := Suc (clock_reads w)\<rparr>))) @ rest"
    by blast
  obtain tr r' w' where b: "generate_body e text vn speed w = (tr, r', w')"
    by (cases "generate_body e text vn speed w") auto
  show ?thesis
    using assms(1,2,3) r b a
    by (cases r') (simp_all add: generate_speech_def del: chunk_loop.simps)
qed

lemma chunk_progress_event_explicit:
  assumes "1 \<le> i" "i \<le> N"
  shows "chunk_progress_event e st N i reads =
           \<lparr>progress = 15 + \<lfloor>75 * real i / real N\<rfloor>, audio_path = None,
            status_message =
              ProcessingChunk i N (15 + \<lfloor>75 * real i / real N\<rfloor>)
                (if 2 \<le> i
                 then Some ((time_time e reads - st) / real (i - 1) * real (N - (i - 1)))
                 else None),
            delete_status = None\<rparr>"
proof -
  have "75 * real i / real N = real (75 * i) / real N" by simp
  then have f: "\<lfloor>75 * real i / real N\<rfloor> = int ((75 * i) div N)"
    by (simp only: floor_divide_of_nat_eq)
  have a: "real_of_int (int i - 1) = real (i - 1)"
    using assms(1) by (simp add: of_nat_diff)
  have b: "real_of_int (int N - (int i - 1)) = real (N - (i - 1))"
    using assms by (simp add: of_nat_diff)
  show ?thesis
    unfolding chunk_progress_event_def progress_event_def progress_floor f a b
    using assms(1) by auto
qed

text \<open>
  Claim C6, as amended. In a job that passes the validation and loads its reference, the
  progress event for the chunk with one-based index \<open>i\<close> of \<open>N\<close> is emitted immediately
  before that chunk is synthesised: it is the action at position \<open>2 * i + 1\<close> of the trace
  and the call of \<^verbatim>\<open>tts_model.infer\<close> for the chunk is the next action. Its percentage is
  \<open>15 + \<lfloor>75 * i / N\<rfloor>\<close>. From the second chunk on its status carries the estimate
  \<open>elapsed / (i - 1) * (N - (i - 1))\<close>, where \<open>elapsed\<close> is the time from the start of the
  job to this event; for the first chunk the status carries no estimate.
\<close>

theorem chunk_progress_event_emitted:
  assumes "\<not> blank text" and "vn \<noteq> []" and "voice_exists w vn"
    and "load_reference e w vn = (tr_ref, Inr (rt, rc))"
    and "split_text_into_chunks e text = chunks"
    and "1 \<le> i" and "i \<le> length chunks"
  shows "let tr = fst (generate_speech e text (Some vn) speed w);
             N = length chunks;
             elapsed = time_time e (clock_reads w + i) - time_time e (clock_reads w)
         in tr ! (2 * i + 1) =
              Yield \<lparr>progress = 15 + \<lfloor>75 * real i / real N\<rfloor>, audio_path = None,
                     status_message =
                       ProcessingChunk i N (15 + \<lfloor>75 * real i / real N\<rfloor>)
                         (if 2 \<le> i then Some (elapsed / real (i - 1) * real (N - (i - 1)))
                          else None),
                     delete_status = None\<rparr>
            \<and> tr ! (2 * i + 2) = CallInfer (chunks ! (i - 1)) rc rt"
proof -
  let ?w0 = "w\<lparr>clock_reads := Suc (clock_reads w)\<rparr>"
  let ?st = "time_time e (clock_reads w)"
  let ?L = "fst (chunk_loop e ?st (length chunks) rc rt 1 chunks [] ?w0)"
  have ne: "chunks \<noteq> []" using assms(6,7) by auto
  from generate_speech_prefix [OF assms(1,2,3,4,5) ne, of speed] obtain a0 a1 a2 rest where
    tr: "fst (generate_speech e text (Some vn) speed w) = (a0 # a1 # a2 # ?L) @ rest"
    by blast
  have k: "i - 1 < length chunks" using assms(6,7) by simp
  have len: "length ?L = 2 * length chunks" by (rule chunk_loop_trace_length)
  have i1: "2 * i + 1 = 3 + 2 * (i - 1)" "2 * i + 2 = 3 + (2 * (i - 1) + 1)"
    using assms(6) by simp_all
  have n1: "fst (generate_speech e text (Some vn) speed w) ! (2 * i + 1) = ?L ! (2 * (i - 1))"
    unfolding tr i1 using k len by (simp add: nth_append del: chunk_loop.simps)
  have n2: "fst (generate_speech e text (Some vn) speed w) ! (2 * i + 2) = ?L ! (2 * (i - 1) + 1)"
    unfolding tr i1 using k len by (simp add: nth_append del: chunk_loop.simps)
  from chunk_loop_trace_nth [OF k, of e ?st "length chunks" rc rt 1 "[]" ?w0]
  have l1: "?L ! (2 * (i - 1)) =
              Yield (chunk_progress_event e ?st (length chunks) i (clock_reads w + i))"
    and l2: "?L ! (2 * (i - 1) + 1) = CallInfer (chunks ! (i - 1)) rc rt"
    using assms(6) by simp_all
  show ?thesis
    unfolding Let_def n1 n2 l1 l2 chunk_progress_event_explicit [OF assms(6,7)]
    by simp
qed

text \<open>
  Claim C6 as stated has the event emitted after its chunk. In the concrete job of two
  chunks the event for the first chunk is the action at position 3, and the call of
  \<^verbatim>\<open>tts_model.infer\<close> for that chunk does not come before it.
\<close>

theorem progress_event_after_chunk_counterexample:
  "fst (generate_speech demo_env ''one|two'' (Some ''amy'') 1 demo_world) ! 3 =
     Yield (progress_event 52 (ProcessingChunk 1 2 52 None))
   \<and> \<not> index_of (CallInfer ''one'' [4] ''hello there'')
          (fst (generate_speech demo_env ''one|two'' (Some ''amy'') 1 demo_world))
        < index_of (Yield (progress_event 52 (ProcessingChunk 1 2 52 None)))
          (fst (generate_speech demo_env ''one|two'' (Some ''amy'') 1 demo_world))"
  by (simp add: demo_run index_of_def progress_event_def)

text \<open>The amended claim C6 on the second chunk of the concrete job.\<close>

theorem chunk_progress_event_emitted_witness:
  "\<not> blank ''one|two'' \<and> voice_exists demo_world ''amy''
   \<and> load_reference demo_env demo_world ''amy'' =
       ([CallTorchLoad ''amy.pt''], Inr (''hello there'', [4]))
   \<and> split_text_into_chunks demo_env ''one|two'' = [''one'', ''two'']
   \<and> fst (generate_speech demo_env ''one|two'' (Some ''amy'') 1 demo_world) ! 5 =
       Yield \<lparr>progress = 90, audio_path = None,
              status_message = ProcessingChunk 2 2 90 (Some 4), delete_status = None\<rparr>
   \<and> fst (generate_speech demo_env ''one|two'' (Some ''amy'') 1 demo_world) ! 6 =
       CallInfer ''two'' [4] ''hello there''"
proof -
  have c: "clock_reads demo_world = 0" by (simp add: demo_world_def)
  have n: "''amy'' \<noteq> []" "(1 :: nat) \<le> 2" "2 \<le> length [''one'', ''two'']"
    by simp_all
  from chunk_progress_event_emitted [OF demo_valid(1) n(1) demo_valid(4) demo_reference
      demo_chunks(1) n(2) n(3), of 1]
  show ?thesis
    using c by (simp add: demo_valid demo_reference demo_chunks demo_infer Let_def
        eval_nat_numeral)
qed

end
